theory Spec2Isabelle
  imports Main
begin

section \<open>JavaScript values\<close>

text \<open>
  The trees handled by escallmatch are plain JavaScript data: the parser's output and
  whatever a caller passes to \<open>test\<close> and \<open>matchArgument\<close>. An object is its own
  enumerable properties in order, an array its elements; both carry the identity that
  \<open>===\<close> compares (two occurrences with one identity stand for the same object, and
  are then expected to have the same contents). Numbers are the integers that occur in
  these trees (lengths, positions, integer literals).
\<close>

datatype jsval =
    JUndefined
  | JNull
  | JBool bool
  | JNum int
  | JStr string
  | JArr nat "jsval list"
  | JObj nat "(string \<times> jsval) list"

text \<open>
  What a run can end with other than a value: \<open>Error msg\<close> is \<open>throw new Error(msg)\<close>,
  \<open>TypeError\<close> is the engine's error on reading a property of \<open>undefined\<close> or
  \<open>null\<close>, \<open>OutsideModel\<close> marks the few coercions of ill-typed data that are not
  modelled (a string used as an argument list, an object used as a number).
\<close>

datatype error = Error string | TypeError | OutsideModel

type_synonym 'a result = "error + 'a"

definition bind :: "'a result \<Rightarrow> ('a \<Rightarrow> 'b result) \<Rightarrow> 'b result" where
  "bind r f = (case r of Inl e \<Rightarrow> Inl e | Inr v \<Rightarrow> f v)"

text \<open>\<open>v.k\<close>: raises on \<open>undefined\<close> and \<open>null\<close>, \<open>undefined\<close> for a missing property.\<close>

fun getProp :: "jsval \<Rightarrow> string \<Rightarrow> jsval result" where
  "getProp JUndefined k = Inl TypeError"
| "getProp JNull k = Inl TypeError"
| "getProp (JObj i fs) k = Inr (case map_of fs k of Some v \<Rightarrow> v | None \<Rightarrow> JUndefined)"
| "getProp (JArr i xs) k = Inr (if k = ''length'' then JNum (int (length xs)) else JUndefined)"
| "getProp (JStr s) k = Inr (if k = ''length'' then JNum (int (length s)) else JUndefined)"
| "getProp (JBool b) k = Inr JUndefined"
| "getProp (JNum n) k = Inr JUndefined"

text \<open>\<open>v[0]\<close>.\<close>

fun getFirst :: "jsval \<Rightarrow> jsval result" where
  "getFirst JUndefined = Inl TypeError"
| "getFirst JNull = Inl TypeError"
| "getFirst (JArr i xs) = Inr (case xs of [] \<Rightarrow> JUndefined | x # _ \<Rightarrow> x)"
| "getFirst (JObj i fs) = Inr (case map_of fs ''0'' of Some v \<Rightarrow> v | None \<Rightarrow> JUndefined)"
| "getFirst (JStr s) = Inr (case s of [] \<Rightarrow> JUndefined | c # _ \<Rightarrow> JStr [c])"
| "getFirst (JBool b) = Inr JUndefined"
| "getFirst (JNum n) = Inr JUndefined"

text \<open>Truthiness, as \<open>&&\<close> and \<open>if\<close> read a value.\<close>

fun truthy :: "jsval \<Rightarrow> bool" where
  "truthy JUndefined = False"
| "truthy JNull = False"
| "truthy (JBool b) = b"
| "truthy (JNum n) = (n \<noteq> 0)"
| "truthy (JStr s) = (s \<noteq> [])"
| "truthy (JArr i xs) = True"
| "truthy (JObj i fs) = True"

text \<open>\<open>a === b\<close>: primitives by value, objects and arrays by identity.\<close>

fun strictEq :: "jsval \<Rightarrow> jsval \<Rightarrow> bool" where
  "strictEq JUndefined JUndefined = True"
| "strictEq JNull JNull = True"
| "strictEq (JBool a) (JBool b) = (a = b)"
| "strictEq (JNum a) (JNum b) = (a = b)"
| "strictEq (JStr a) (JStr b) = (a = b)"
| "strictEq (JArr i xs) (JArr j ys) = (i = j)"
| "strictEq (JObj i fs) (JObj j gs) = (i = j)"
| "strictEq _ _ = False"

text \<open>
  The array helpers of index.js (\<open>array-foreach\<close>, \<open>array-map\<close>, \<open>array-filter\<close>,
  \<open>array-reduce\<close>, \<open>indexof\<close>) run over the elements of an array. On \<open>undefined\<close>
  and \<open>null\<close> they raise a TypeError; a number or a boolean has no length, so nothing
  is visited; what they do on a string or on an object is not modelled.
\<close>

fun arrayElems :: "jsval \<Rightarrow> jsval list result" where
  "arrayElems (JArr i xs) = Inr xs"
| "arrayElems JUndefined = Inl TypeError"
| "arrayElems JNull = Inl TypeError"
| "arrayElems (JBool b) = Inr []"
| "arrayElems (JNum n) = Inr []"
| "arrayElems (JStr s) = Inl OutsideModel"
| "arrayElems (JObj i fs) = Inl OutsideModel"


section \<open>Node kinds and messages\<close>

definition syntax_Identifier :: jsval where "syntax_Identifier = JStr ''Identifier''"
definition syntax_ArrayExpression :: jsval where "syntax_ArrayExpression = JStr ''ArrayExpression''"
definition syntax_CallExpression :: jsval where "syntax_CallExpression = JStr ''CallExpression''"
definition syntax_ExpressionStatement :: jsval where
  "syntax_ExpressionStatement = JStr ''ExpressionStatement''"

definition notCallExprMessage :: string where
  "notCallExprMessage = ''Argument should be in the form of CallExpression''"
definition duplicatedArgMessage :: string where
  "duplicatedArgMessage = ''Duplicate argument name: ''"
definition invalidFormMessage :: string where
  "invalidFormMessage = ''Argument should be in the form of `name` or `[name]`''"

section \<open>Signature extraction and validation\<close>

text \<open>
  \<open>validateArg\<close>: the name a signature argument declares. The \<open>switch\<close> compares
  \<open>arg.type\<close> with \<open>===\<close>.
\<close>

definition validateArg :: "jsval \<Rightarrow> jsval result" where
  "validateArg arg =
     bind (getProp arg ''type'') (\<lambda>t.
       if strictEq t syntax_Identifier then getProp arg ''name''
       else if strictEq t syntax_ArrayExpression then
         bind (getProp arg ''elements'') (\<lambda>elements.
         bind (getProp elements ''length'') (\<lambda>n.
           if \<not> strictEq n (JNum 1) then Inl (Error invalidFormMessage)
           else
             bind (getFirst elements) (\<lambda>inner.
             bind (getProp inner ''type'') (\<lambda>it.
               if \<not> strictEq it syntax_Identifier then Inl (Error invalidFormMessage)
               else getProp inner ''name''))))
       else Inl (Error invalidFormMessage))"

text \<open>
  The property key a value is converted to when it indexes an object. Names in a parsed
  tree are strings; the conversion of numbers, arrays and objects is not modelled.
\<close>

fun toPropertyKey :: "jsval \<Rightarrow> string result" where
  "toPropertyKey (JStr s) = Inr s"
| "toPropertyKey JUndefined = Inr ''undefined''"
| "toPropertyKey JNull = Inr ''null''"
| "toPropertyKey (JBool b) = Inr (if b then ''true'' else ''false'')"
| "toPropertyKey (JNum n) = Inl OutsideModel"
| "toPropertyKey (JArr i xs) = Inl OutsideModel"
| "toPropertyKey (JObj i fs) = Inl OutsideModel"

text \<open>
  \<open>names\<close> is the object literal \<open>{}\<close> used as a dictionary; the model keeps its own
  property keys (the value stored under a key is the key itself). \<open>names[k] = v\<close>
  creates the own property \<open>k\<close>, except for the key \<open>__proto__\<close>: that assignment
  goes to the accessor inherited from \<open>Object.prototype\<close>, which ignores a value that
  is neither an object nor \<open>null\<close> (here \<open>v\<close> is a primitive whenever its key is
  modelled, and it is \<open>null\<close> only under the key \<open>null\<close>), so no own property
  appears.
\<close>

definition hasOwn :: "string list \<Rightarrow> string \<Rightarrow> bool" where
  "hasOwn names k = (k \<in> set names)"

definition assignName :: "string list \<Rightarrow> string \<Rightarrow> string list" where
  "assignName names k = (if k = ''__proto__'' then names else k # names)"

text \<open>The callback of the \<open>forEach\<close> in \<open>validateApiExpression\<close>, on one argument.\<close>

definition validateStep :: "string list \<Rightarrow> jsval \<Rightarrow> string list result" where
  "validateStep names arg =
     bind (validateArg arg) (\<lambda>name.
     bind (toPropertyKey name) (\<lambda>k.
       if hasOwn names k then Inl (Error (duplicatedArgMessage @ k))
       else Inr (assignName names k)))"

text \<open>The \<open>forEach\<close> itself: left to right, an exception ends it.\<close>

fun validateArgs :: "string list \<Rightarrow> jsval list \<Rightarrow> string list result" where
  "validateArgs names [] = Inr names"
| "validateArgs names (arg # rest) =
     bind (validateStep names arg) (\<lambda>names'. validateArgs names' rest)"

definition validateApiExpression :: "jsval \<Rightarrow> unit result" where
  "validateApiExpression callExpression =
     bind (getProp callExpression ''type'') (\<lambda>t.
       if \<not> strictEq t syntax_CallExpression then Inl (Error notCallExprMessage)
       else
         bind (getProp callExpression ''arguments'') (\<lambda>arguments.
         bind (arrayElems arguments) (\<lambda>args.
         bind (validateArgs [] args) (\<lambda>names. Inr ()))))"

definition extractExpressionFrom :: "jsval \<Rightarrow> jsval result" where
  "extractExpressionFrom tree =
     bind (getProp tree ''body'') (\<lambda>body.
     bind (getFirst body) (\<lambda>statement.
     bind (getProp statement ''type'') (\<lambda>t.
       if \<not> strictEq t syntax_ExpressionStatement then Inl (Error notCallExprMessage)
       else
         bind (getProp statement ''expression'') (\<lambda>expression.
         bind (validateApiExpression expression) (\<lambda>u. Inr expression)))))"

section \<open>Tree traversal\<close>

text \<open>
  Modelled from the spec: \<open>estraverse.traverse\<close> is an external package (spec 4.5:
  the traversal follows the configured traversal keys and tracks the path length at each
  visited node). The model follows the package's worklist loop. A falsy element is
  dropped; otherwise \<open>enter\<close> is called, and then the children are looked up in the
  key table under \<open>node.type || element.wrap\<close>, a kind without an entry raising
  \<open>Unknown node type\<close>. For each key in order, a truthy \<open>node[key]\<close> that is an array
  contributes its truthy elements that are nodes (all its truthy elements, wrapped as
  \<open>Property\<close>, under the key \<open>properties\<close> of an object expression or pattern), with
  the two path components \<open>[key, index]\<close>; one that is a node contributes itself,
  with the path component \<open>key\<close>. \<open>this.path()\<close> is \<open>null\<close> at the root and the
  components from the root otherwise, so the callbacks of the source see the number of
  components, 0 at the root.
\<close>

type_synonym visitorKeys = "(string \<times> string list) list"

text \<open>A worklist element: the node, the length of its path, whether it is wrapped.\<close>

type_synonym element = "jsval \<times> nat \<times> bool"

fun isNode :: "jsval \<Rightarrow> bool" where
  "isNode (JObj i fs) = (case map_of fs ''type'' of Some (JStr t) \<Rightarrow> True | _ \<Rightarrow> False)"
| "isNode _ = False"

definition isProperty :: "string \<Rightarrow> string \<Rightarrow> bool" where
  "isProperty nodeType key =
     ((nodeType = ''ObjectExpression'' \<or> nodeType = ''ObjectPattern'') \<and> key = ''properties'')"

text \<open>The elements pushed for one key of a node at path length \<open>d\<close>.\<close>

fun keyElements :: "string \<Rightarrow> nat \<Rightarrow> string \<Rightarrow> jsval \<Rightarrow> element list" where
  "keyElements nodeType d key (JArr i xs) =
     (if isProperty nodeType key then map (\<lambda>x. (x, d + 2, True)) (filter truthy xs)
      else map (\<lambda>x. (x, d + 2, False)) (filter (\<lambda>x. truthy x \<and> isNode x) xs))"
| "keyElements nodeType d key candidate =
     (if isNode candidate then [(candidate, d + 1, False)] else [])"

text \<open>\<open>node[key]\<close> where the read cannot raise (the node is truthy).\<close>

definition propOf :: "jsval \<Rightarrow> string \<Rightarrow> jsval" where
  "propOf node key = (case getProp node key of Inr v \<Rightarrow> v | Inl e \<Rightarrow> JUndefined)"

definition childElements :: "string \<Rightarrow> string list \<Rightarrow> jsval \<Rightarrow> nat \<Rightarrow> element list" where
  "childElements nodeType candidates node d =
     concat (map (\<lambda>key. keyElements nodeType d key (propOf node key)) candidates)"

text \<open>\<open>node.type || element.wrap\<close>, as the key it is looked up under.\<close>

definition nodeTypeKey :: "jsval \<Rightarrow> bool \<Rightarrow> string result" where
  "nodeTypeKey node wrap =
     (let t = propOf node ''type'' in
      if truthy t then toPropertyKey t
      else Inr (if wrap then ''Property'' else ''null''))"

definition candidatesOf :: "visitorKeys \<Rightarrow> jsval \<Rightarrow> bool \<Rightarrow> (string \<times> string list) result" where
  "candidatesOf keys node wrap =
     bind (nodeTypeKey node wrap) (\<lambda>nodeType.
       case map_of keys nodeType of
         None \<Rightarrow> Inl (Error (''Unknown node type '' @ nodeType @ ''.''))
       | Some candidates \<Rightarrow> Inr (nodeType, candidates))"

text \<open>
  What a traversal does, in order: a call of \<open>enter\<close> at a path length, or the throw
  that ends it (the callbacks below stop reading at a throw, so what the list holds
  after one plays no part).
\<close>

datatype event = Enter nat | Throw error

lemma size_map_of:
  "map_of fs k = Some v \<Longrightarrow> size v < Suc (size_list (size_prod (\<lambda>_. 0) size) fs)"
  by (induction fs) (auto split: if_splits)

lemma size_in_list: "x \<in> set xs \<Longrightarrow> size x < Suc (size_list size xs)"
  by (induction xs) auto

lemma size_keyElements:
  "e \<in> set (keyElements nodeType d key (propOf node key)) \<Longrightarrow> size (fst e) < size node"
proof (cases node)
  case (JObj i fs)
  show "e \<in> set (keyElements nodeType d key (propOf node key)) \<Longrightarrow> size (fst e) < size node"
  proof (cases "map_of fs key")
    case None
    assume "e \<in> set (keyElements nodeType d key (propOf node key))"
    with JObj None show ?thesis by (simp add: propOf_def)
  next
    case (Some v)
    assume a: "e \<in> set (keyElements nodeType d key (propOf node key))"
    from Some have lt: "size v < Suc (size_list (size_prod (\<lambda>_. 0) size) fs)"
      by (rule size_map_of)
    from a JObj Some have "e \<in> set (keyElements nodeType d key v)"
      by (simp add: propOf_def)
    then have "size (fst e) \<le> size v"
      by (cases v) (auto split: if_splits dest: size_in_list)
    with lt JObj show ?thesis by simp
  qed
qed (auto simp: propOf_def split: if_splits)

lemma size_childElements:
  "e \<in> set (childElements nodeType candidates node d) \<Longrightarrow> size (fst e) < size node"
  by (auto simp: childElements_def dest: size_keyElements)

function events :: "visitorKeys \<Rightarrow> element \<Rightarrow> event list" where
  "events keys (node, d, wrap) =
     (if \<not> truthy node then []
      else Enter d #
        (case candidatesOf keys node wrap of
           Inl e \<Rightarrow> [Throw e]
         | Inr (nodeType, candidates) \<Rightarrow>
             concat (map (events keys) (childElements nodeType candidates node d))))"
  by pat_completeness auto
termination
  by (relation "measure (\<lambda>(keys, e). size (fst e))") (auto dest: size_childElements)

text \<open>
  Two tables of the external packages are read by the matcher and are not part of the
  repository: \<open>estraverse.VisitorKeys\<close>, the default key table of the traversal
  (spec 4.2: the canonical visitor key set of the grammar), and the names of the fields
  that \<open>espurify\<close> removes (spec 4.3: all location, range and metadata fields). The
  model takes both as a parameter, and every statement below holds for any choice of
  them.
\<close>

record packages =
  VisitorKeys :: visitorKeys
  metadataFields :: "string list"

text \<open>
  \<open>estraverse.traverse(root, {keys: ..., enter: ...})\<close>: the visitor's \<open>keys\<close> are
  laid over the default table (an entry of \<open>keys\<close> wins, a kind without one falls back
  to the default entry); the root has no path and no wrapper.
\<close>

definition traverse :: "packages \<Rightarrow> visitorKeys \<Rightarrow> jsval \<Rightarrow> event list" where
  "traverse pk keys root = events (keys @ VisitorKeys pk) (root, 0, False)"


section \<open>Purified comparison\<close>

text \<open>
  Modelled from the spec: \<open>espurify\<close> is an external package (spec 4.3 and 4.5: a deep
  copy with all location, range and metadata fields removed, recursively). \<open>purify\<close>
  is the copy of a value inside the tree: an object without the fields named in the
  list, an array element by element, anything else as it is. The copy is a new object;
  its identity is never compared, and the model gives every copy the identity 0.
\<close>

fun purify :: "string list \<Rightarrow> jsval \<Rightarrow> jsval" where
  "purify M (JObj i fs) =
     JObj 0 (map (\<lambda>(k, v). (k, purify M v)) (filter (\<lambda>(k, v). k \<notin> set M) fs))"
| "purify M (JArr i xs) = JArr 0 (map (purify M) xs)"
| "purify M v = v"

text \<open>
  \<open>espurify(node)\<close> itself reads \<open>node.type\<close> first, so it raises a TypeError on
  \<open>undefined\<close> and \<open>null\<close>; what it returns for a root that is no object is not
  modelled.
\<close>

fun espurify :: "packages \<Rightarrow> jsval \<Rightarrow> jsval result" where
  "espurify pk (JObj i fs) = Inr (purify (metadataFields pk) (JObj i fs))"
| "espurify pk JUndefined = Inl TypeError"
| "espurify pk JNull = Inl TypeError"
| "espurify pk (JBool b) = Inl OutsideModel"
| "espurify pk (JNum n) = Inl OutsideModel"
| "espurify pk (JStr s) = Inl OutsideModel"
| "espurify pk (JArr i xs) = Inl OutsideModel"

text \<open>
  Modelled from the spec: \<open>deepEqual\<close> is the external package \<open>deep-equal\<close> (spec 4.5:
  deeply, recursively equal field by field: the same own fields with equal values, the
  same elements, the same literal values). Identities play no part.
\<close>

fun deepEqual :: "jsval \<Rightarrow> jsval \<Rightarrow> bool" where
  "deepEqual (JObj i fs) (JObj j gs) =
     (length fs = length gs \<and>
      list_all (\<lambda>(k, v). case map_of gs k of None \<Rightarrow> False | Some w \<Rightarrow> deepEqual v w) fs)"
| "deepEqual (JArr i xs) (JArr j ys) = list_all2 deepEqual xs ys"
| "deepEqual a b = strictEq a b"

section \<open>The matcher (index.js)\<close>

text \<open>
  The two callbacks of the source, run over the calls of \<open>enter\<close>. \<open>astDepth\<close> keeps
  the largest path length; \<open>isSameAstDepth\<close> does the same and breaks off the traversal
  as soon as the running value exceeds \<open>depth\<close>.
\<close>

fun astDepthLoop :: "event list \<Rightarrow> nat \<Rightarrow> nat result" where
  "astDepthLoop [] maxDepth = Inr maxDepth"
| "astDepthLoop (Throw e # es) maxDepth = Inl e"
| "astDepthLoop (Enter pathDepth # es) maxDepth =
     astDepthLoop es (if maxDepth < pathDepth then pathDepth else maxDepth)"

definition astDepth :: "packages \<Rightarrow> jsval \<Rightarrow> visitorKeys \<Rightarrow> nat result" where
  "astDepth pk ast keys = astDepthLoop (traverse pk keys ast) 0"

fun isSameAstDepthLoop :: "nat \<Rightarrow> event list \<Rightarrow> nat \<Rightarrow> nat result" where
  "isSameAstDepthLoop depth [] currentDepth = Inr currentDepth"
| "isSameAstDepthLoop depth (Throw e # es) currentDepth = Inl e"
| "isSameAstDepthLoop depth (Enter pathDepth # es) currentDepth =
     (let currentDepth' = (if currentDepth < pathDepth then pathDepth else currentDepth)
      in if depth < currentDepth' then Inr currentDepth'
         else isSameAstDepthLoop depth es currentDepth')"

definition isSameAstDepth :: "packages \<Rightarrow> jsval \<Rightarrow> nat \<Rightarrow> visitorKeys \<Rightarrow> bool result" where
  "isSameAstDepth pk ast depth keys =
     bind (isSameAstDepthLoop depth (traverse pk keys ast) 0) (\<lambda>currentDepth.
       Inr (depth = currentDepth))"

definition isCallExpression :: "jsval \<Rightarrow> bool" where
  "isCallExpression node = (truthy node \<and> strictEq (propOf node ''type'') syntax_CallExpression)"

definition isCalleeOfParent :: "jsval \<Rightarrow> jsval \<Rightarrow> bool" where
  "isCalleeOfParent currentNode parentNode =
     (truthy parentNode \<and> truthy currentNode \<and>
      strictEq (propOf parentNode ''type'') syntax_CallExpression \<and>
      strictEq (propOf parentNode ''callee'') currentNode)"

definition identifiers :: "jsval \<Rightarrow> bool result" where
  "identifiers node = bind (getProp node ''type'') (\<lambda>t. Inr (strictEq t syntax_Identifier))"

definition isCalleeMatched :: "packages \<Rightarrow> jsval \<Rightarrow> nat \<Rightarrow> jsval \<Rightarrow> visitorKeys \<Rightarrow> bool result" where
  "isCalleeMatched pk callSignature signatureCalleeDepth node keys =
     (if \<not> isCallExpression node then Inr False
      else
        bind (getProp node ''callee'') (\<lambda>callee.
        bind (isSameAstDepth pk callee signatureCalleeDepth keys) (\<lambda>same.
          if \<not> same then Inr False
          else
            bind (getProp callSignature ''callee'') (\<lambda>sigCallee.
            bind (espurify pk sigCallee) (\<lambda>purifiedSignature.
            bind (espurify pk callee) (\<lambda>purifiedCallee.
              Inr (deepEqual purifiedSignature purifiedCallee)))))))"

text \<open>
  \<open>a <= b\<close> on the values that can stand for an argument count. \<open>undefined\<close> converts
  to NaN, and every comparison with NaN is false.
\<close>

fun toNumber :: "jsval \<Rightarrow> int option result" where
  "toNumber (JNum n) = Inr (Some n)"
| "toNumber JUndefined = Inr None"
| "toNumber JNull = Inr (Some 0)"
| "toNumber (JBool b) = Inr (Some (if b then 1 else 0))"
| "toNumber (JStr s) = (if s = [] then Inr (Some 0) else Inl OutsideModel)"
| "toNumber (JArr i xs) = Inl OutsideModel"
| "toNumber (JObj i fs) = Inl OutsideModel"

definition lessEq :: "jsval \<Rightarrow> jsval \<Rightarrow> bool result" where
  "lessEq a b =
     bind (toNumber a) (\<lambda>x.
     bind (toNumber b) (\<lambda>y.
       Inr (case (x, y) of (Some m, Some n) \<Rightarrow> m \<le> n | _ \<Rightarrow> False)))"

record Matcher =
  visitorKeys :: visitorKeys
  signatureAst :: jsval
  signatureCalleeDepth :: nat
  numMaxArgs :: jsval
  numMinArgs :: nat

fun filterArr :: "(jsval \<Rightarrow> bool result) \<Rightarrow> jsval list \<Rightarrow> jsval list result" where
  "filterArr f [] = Inr []"
| "filterArr f (x # xs) =
     bind (f x) (\<lambda>keep.
     bind (filterArr f xs) (\<lambda>rest. Inr (if keep then x # rest else rest)))"

text \<open>
  The constructor. \<open>options\<close> is the \<open>visitorKeys\<close> option when it is given and
  truthy.
\<close>

definition newMatcher :: "packages \<Rightarrow> jsval \<Rightarrow> visitorKeys option \<Rightarrow> Matcher result" where
  "newMatcher pk ast options =
     (let keys = (case options of Some ks \<Rightarrow> ks | None \<Rightarrow> VisitorKeys pk) in
      bind (getProp ast ''callee'') (\<lambda>callee.
      bind (astDepth pk callee keys) (\<lambda>depth.
      bind (getProp ast ''arguments'') (\<lambda>arguments.
      bind (getProp arguments ''length'') (\<lambda>len.
      bind (arrayElems arguments) (\<lambda>args.
      bind (filterArr identifiers args) (\<lambda>ids.
        Inr \<lparr> visitorKeys = keys, signatureAst = ast, signatureCalleeDepth = depth,
              numMaxArgs = len, numMinArgs = length ids \<rparr>)))))))"

text \<open>
  \<open>createMatcher\<close>, from the tree that \<open>esprima.parse(signatureStr)\<close> returns (the
  parser is external).
\<close>

definition createMatcher :: "packages \<Rightarrow> jsval \<Rightarrow> visitorKeys option \<Rightarrow> Matcher result" where
  "createMatcher pk tree options =
     bind (extractExpressionFrom tree) (\<lambda>ast. newMatcher pk ast options)"

definition test :: "packages \<Rightarrow> Matcher \<Rightarrow> jsval \<Rightarrow> bool result" where
  "test pk m currentNode =
     bind (isCalleeMatched pk (signatureAst m) (signatureCalleeDepth m) currentNode (visitorKeys m))
       (\<lambda>calleeMatched.
         if calleeMatched then
           bind (getProp currentNode ''arguments'') (\<lambda>arguments.
           bind (getProp arguments ''length'') (\<lambda>numArgs.
           bind (lessEq (JNum (int (numMinArgs m))) numArgs) (\<lambda>lower.
             if lower then lessEq numArgs (numMaxArgs m) else Inr False)))
         else Inr False)"

text \<open>
  An argument-signature descriptor \<open>{name: ..., kind: ...}\<close>, and what
  \<open>matchArgument\<close> returns: a descriptor, \<open>null\<close>, or the \<open>undefined\<close> of an index
  outside the list.
\<close>

datatype argSig = ArgSig (name: jsval) (kind: string)

datatype matched = ReturnsNull | ReturnsUndefined | Descriptor argSig

definition toArgumentSignature :: "jsval \<Rightarrow> argSig option result" where
  "toArgumentSignature argSignatureNode =
     bind (getProp argSignatureNode ''type'') (\<lambda>t.
       if strictEq t syntax_Identifier then
         bind (getProp argSignatureNode ''name'') (\<lambda>n. Inr (Some (ArgSig n ''mandatory'')))
       else if strictEq t syntax_ArrayExpression then
         bind (getProp argSignatureNode ''elements'') (\<lambda>elements.
         bind (getFirst elements) (\<lambda>inner.
         bind (getProp inner ''name'') (\<lambda>n. Inr (Some (ArgSig n ''optional'')))))
       else Inr None)"

fun mapArr :: "('a \<Rightarrow> 'b result) \<Rightarrow> 'a list \<Rightarrow> 'b list result" where
  "mapArr f [] = Inr []"
| "mapArr f (x # xs) = bind (f x) (\<lambda>y. bind (mapArr f xs) (\<lambda>ys. Inr (y # ys)))"

definition argumentSignatures :: "Matcher \<Rightarrow> argSig option list result" where
  "argumentSignatures m =
     bind (getProp (signatureAst m) ''arguments'') (\<lambda>arguments.
     bind (arrayElems arguments) (\<lambda>args. mapArr toArgumentSignature args))"

text \<open>
  The \<open>reduce\<close> of \<open>matchArgument\<close>, with the captured counter \<open>numOptional\<close>
  (\<open>None\<close> is NaN). Reading \<open>kind\<close> of a \<open>null\<close> descriptor raises.
\<close>

fun reduceSignatures :: "argSig option list \<Rightarrow> argSig list \<Rightarrow> int option \<Rightarrow> argSig list result" where
  "reduceSignatures [] accum numOptional = Inr accum"
| "reduceSignatures (None # rest) accum numOptional = Inl TypeError"
| "reduceSignatures (Some argSig # rest) accum numOptional =
     (let accum1 = (if kind argSig = ''mandatory'' then accum @ [argSig] else accum);
          emit = (kind argSig = ''optional'' \<and> (case numOptional of Some n \<Rightarrow> 0 < n | None \<Rightarrow> False))
      in reduceSignatures rest
           (if emit then accum1 @ [argSig] else accum1)
           (if emit then map_option (\<lambda>n. n - 1) numOptional else numOptional))"

text \<open>\<open>indexOf\<close> compares with \<open>===\<close>; \<open>-1\<close> when nothing is found.\<close>

fun indexFrom :: "int \<Rightarrow> jsval list \<Rightarrow> jsval \<Rightarrow> int" where
  "indexFrom i [] v = -1"
| "indexFrom i (x # xs) v = (if strictEq x v then i else indexFrom (i + 1) xs v)"

definition indexOf :: "jsval \<Rightarrow> jsval \<Rightarrow> int result" where
  "indexOf arr v = bind (arrayElems arr) (\<lambda>xs. Inr (indexFrom 0 xs v))"

text \<open>\<open>matchedSignatures[i]\<close>: \<open>undefined\<close> outside the list, also at \<open>-1\<close>.\<close>

definition descriptorAt :: "argSig list \<Rightarrow> int \<Rightarrow> matched" where
  "descriptorAt sigs i =
     (if 0 \<le> i \<and> i < int (length sigs) then Descriptor (sigs ! nat i) else ReturnsUndefined)"

definition matchArgument :: "packages \<Rightarrow> Matcher \<Rightarrow> jsval \<Rightarrow> jsval \<Rightarrow> matched result" where
  "matchArgument pk m currentNode parentNode =
     (if isCalleeOfParent currentNode parentNode then Inr ReturnsNull
      else
        bind (test pk m parentNode) (\<lambda>ok.
          if ok then
            bind (getProp parentNode ''arguments'') (\<lambda>arguments.
            bind (indexOf arguments currentNode) (\<lambda>indexOfCurrentArg.
            bind (getProp arguments ''length'') (\<lambda>len.
            bind (toNumber len) (\<lambda>n.
            bind (argumentSignatures m) (\<lambda>sigs.
            bind (reduceSignatures sigs [] (map_option (\<lambda>k. k - int (numMinArgs m)) n))
              (\<lambda>matchedSignatures.
                Inr (descriptorAt matchedSignatures indexOfCurrentArg)))))))
          else Inr ReturnsNull))"

section \<open>The earlier matcher (src/unnamed/part\_000)\<close>














section \<open>Notions used in the statements\<close>

text \<open>
  The assignment as the specification words it (4.4, steps 4 and 5): walk the declared
  descriptors in order, emit every mandatory one, and emit an optional one only while the
  count of filled optional slots is positive, decrementing it each time.
\<close>

fun emitInOrder :: "argSig list \<Rightarrow> int \<Rightarrow> argSig list" where
  "emitInOrder [] numOptionalPresent = []"
| "emitInOrder (d # ds) numOptionalPresent =
     (if kind d = ''mandatory'' then d # emitInOrder ds numOptionalPresent
      else if 0 < numOptionalPresent then d # emitInOrder ds (numOptionalPresent - 1)
      else emitInOrder ds numOptionalPresent)"



text \<open>The kinds a descriptor of a validated signature can have.\<close>

definition declaredKind :: "argSig \<Rightarrow> bool" where
  "declaredKind d = (kind d = ''mandatory'' \<or> kind d = ''optional'')"


text \<open>
  Source-position metadata, as a parser attaches it: the value of a metadata field is
  not itself a node and, when an array, has no node among its elements (a \<open>range\<close> of
  two offsets, a \<open>loc\<close> of line and column records). \<open>positionsOnly\<close> says that
  every metadata field in a tree holds such data.
\<close>

fun positionData :: "jsval \<Rightarrow> bool" where
  "positionData (JObj i fs) = (\<not> isNode (JObj i fs))"
| "positionData (JArr i xs) = list_all (\<lambda>x. \<not> isNode x) xs"
| "positionData v = True"

fun positionsOnly :: "string list \<Rightarrow> jsval \<Rightarrow> bool" where
  "positionsOnly M (JObj i fs) =
     list_all (\<lambda>(k, v). if k \<in> set M then positionData v else positionsOnly M v) fs"
| "positionsOnly M (JArr i xs) = list_all (positionsOnly M) xs"
| "positionsOnly M v = True"

text \<open>A worklist element with its node purified.\<close>

definition purified :: "string list \<Rightarrow> element \<Rightarrow> element" where
  "purified M e = (purify M (fst e), snd e)"

text \<open>
  The purifier keeps the fields by which the traversal tells the kind of a node and the
  property list of an object expression.
\<close>

definition keepsStructure :: "string list \<Rightarrow> bool" where
  "keepsStructure M = (''type'' \<notin> set M \<and> ''properties'' \<notin> set M)"



section \<open>Example trees\<close>

text \<open>
  An instance of the package tables for the examples: the default keys of the expression
  kinds, and the position fields \<open>loc\<close> and \<open>range\<close> as the fields removed.
\<close>

definition exampleKeys :: visitorKeys where
  "exampleKeys =
     [(''Identifier'', []),
      (''Literal'', []),
      (''ThisExpression'', []),
      (''MemberExpression'', [''object'', ''property'']),
      (''CallExpression'', [''callee'', ''arguments'']),
      (''NewExpression'', [''callee'', ''arguments'']),
      (''ArrayExpression'', [''elements'']),
      (''ObjectExpression'', [''properties'']),
      (''Property'', [''key'', ''value'']),
      (''UnaryExpression'', [''argument'']),
      (''UpdateExpression'', [''argument'']),
      (''BinaryExpression'', [''left'', ''right'']),
      (''LogicalExpression'', [''left'', ''right'']),
      (''AssignmentExpression'', [''left'', ''right'']),
      (''ConditionalExpression'', [''test'', ''consequent'', ''alternate'']),
      (''SequenceExpression'', [''expressions''])]"

definition examplePackages :: packages where
  "examplePackages = \<lparr> VisitorKeys = exampleKeys, metadataFields = [''loc'', ''range''] \<rparr>"

text \<open>
  Constructors for the node shapes the parser produces, with explicit identities, used
  to evaluate the matcher on the examples of the specification.
\<close>

definition Identifier :: "nat \<Rightarrow> string \<Rightarrow> jsval" where
  "Identifier i n = JObj i [(''type'', JStr ''Identifier''), (''name'', JStr n)]"

definition Literal :: "nat \<Rightarrow> int \<Rightarrow> jsval" where
  "Literal i n = JObj i [(''type'', JStr ''Literal''), (''value'', JNum n)]"

definition ArrayExpression :: "nat \<Rightarrow> jsval list \<Rightarrow> jsval" where
  "ArrayExpression i xs =
     JObj i [(''type'', JStr ''ArrayExpression''), (''elements'', JArr (Suc i) xs)]"

definition MemberExpression :: "nat \<Rightarrow> jsval \<Rightarrow> jsval \<Rightarrow> jsval" where
  "MemberExpression i obj prop =
     JObj i [(''type'', JStr ''MemberExpression''), (''computed'', JBool False),
             (''object'', obj), (''property'', prop)]"

definition CallExpression :: "nat \<Rightarrow> jsval \<Rightarrow> jsval list \<Rightarrow> jsval" where
  "CallExpression i callee args =
     JObj i [(''type'', JStr ''CallExpression''), (''callee'', callee),
             (''arguments'', JArr (Suc i) args)]"

definition Program :: "jsval list \<Rightarrow> jsval" where
  "Program body = JObj 1000 [(''type'', JStr ''Program''), (''body'', JArr 1001 body)]"

definition ExpressionStatement :: "jsval \<Rightarrow> jsval" where
  "ExpressionStatement e =
     JObj 1002 [(''type'', JStr ''ExpressionStatement''), (''expression'', e)]"

text \<open>The parsed signature \<open>f(a, [b])\<close> and the candidates \<open>f(1)\<close> and \<open>f(1, 2)\<close>.\<close>

definition sig_f_a_optb :: jsval where
  "sig_f_a_optb =
     CallExpression 1 (Identifier 3 ''f'')
       [Identifier 4 ''a'', ArrayExpression 5 [Identifier 7 ''b'']]"

definition cand_f_1 :: jsval where
  "cand_f_1 = CallExpression 11 (Identifier 13 ''f'') [Literal 14 1]"

definition cand_f_1_2 :: jsval where
  "cand_f_1_2 = CallExpression 21 (Identifier 23 ''f'') [Literal 24 1, Literal 25 2]"

text \<open>The parsed signatures \<open>f(__proto__, __proto__)\<close> and \<open>a.b\<close> (no call).\<close>

definition sig_f_proto_proto :: jsval where
  "sig_f_proto_proto =
     CallExpression 1 (Identifier 3 ''f'') [Identifier 4 ''__proto__'', Identifier 5 ''__proto__'']"

definition expr_a_b :: jsval where
  "expr_a_b = MemberExpression 1 (Identifier 2 ''a'') (Identifier 3 ''b'')"

text \<open>The matcher that \<open>createMatcher\<close> builds from \<open>f(a, [b])\<close> with the default keys.\<close>

definition matcher_f_a_optb :: Matcher where
  "matcher_f_a_optb =
     \<lparr> visitorKeys = exampleKeys, signatureAst = sig_f_a_optb,
       signatureCalleeDepth = 0, numMaxArgs = JNum 2, numMinArgs = 1 \<rparr>"

text \<open>
  The matcher built from the signature \<open>a.b()\<close>, and the candidate \<open>a.b.c()\<close>.
\<close>

definition matcher_a_b :: Matcher where
  "matcher_a_b =
     \<lparr> visitorKeys = exampleKeys, signatureAst = CallExpression 10 expr_a_b [],
       signatureCalleeDepth = 1, numMaxArgs = JNum 0, numMinArgs = 0 \<rparr>"

definition cand_a_b_c :: jsval where
  "cand_a_b_c =
     CallExpression 20
       (MemberExpression 22
          (MemberExpression 23 (Identifier 24 ''a'') (Identifier 25 ''b''))
          (Identifier 26 ''c''))
       []"


















section \<open>Results\<close>

lemma bind_Inr [simp]: "bind (Inr v) f = f v"
  by (simp add: bind_def)

lemma bind_Inl [simp]: "bind (Inl e) f = Inl e"
  by (simp add: bind_def)

lemma getProp_propOf: "truthy node \<Longrightarrow> getProp node k = Inr (propOf node k)"
  by (cases node) (simp_all add: propOf_def)

text \<open>
  C7. When the candidate argument node is the very object in the callee slot of a parent
  that is a call expression, \<open>matchArgument\<close> returns \<open>null\<close>, whatever the matcher and
  whether or not the parent matches the signature.
\<close>

theorem matchArgument_callee_absent:
  assumes "isCallExpression parentNode"
    and "propOf parentNode ''callee'' = JObj i fs"
    and "strictEq (JObj i fs) currentNode"
  shows "matchArgument pk m currentNode parentNode = Inr ReturnsNull"
proof -
  from assms(3) have "truthy currentNode"
    by (cases currentNode) simp_all
  with assms have "isCalleeOfParent currentNode parentNode"
    by (simp add: isCalleeOfParent_def isCallExpression_def)
  then show ?thesis
    by (simp add: matchArgument_def)
qed

theorem matchArgument_callee_absent_witness:
  "isCallExpression cand_f_1 \<and> propOf cand_f_1 ''callee'' = Identifier 13 ''f''
   \<and> strictEq (Identifier 13 ''f'') (Identifier 13 ''f'')
   \<and> matchArgument examplePackages matcher_f_a_optb (Identifier 13 ''f'') cand_f_1 = Inr ReturnsNull"
proof -
  have a: "isCallExpression cand_f_1"
    by (simp add: isCallExpression_def cand_f_1_def CallExpression_def propOf_def
        syntax_CallExpression_def)
  have b: "propOf cand_f_1 ''callee'' = JObj 13 [(''type'', JStr ''Identifier''), (''name'', JStr ''f'')]"
    by (simp add: cand_f_1_def CallExpression_def propOf_def Identifier_def)
  have c: "strictEq (JObj 13 [(''type'', JStr ''Identifier''), (''name'', JStr ''f'')]) (Identifier 13 ''f'')"
    by (simp add: Identifier_def)
  from matchArgument_callee_absent [OF a b c] a b c show ?thesis
    by (simp add: Identifier_def)
qed

text \<open>
  The duplicate check at work: when the arguments before \<open>a\<close> declare distinct
  names, \<open>a\<close> declares a name already seen, and that name is not \<open>__proto__\<close>, the
  validation stops at \<open>a\<close> with the duplicate-name error, whatever follows.
\<close>

lemma validateArgs_first_duplicate:
  assumes "map validateArg pre = map (\<lambda>n. Inr (JStr n)) ns"
    and "distinct ns" and "set ns \<inter> set names = {}"
    and "validateArg a = Inr (JStr k)" and "k \<in> set ns \<union> set names" and "k \<noteq> ''__proto__''"
  shows "validateArgs names (pre @ a # rest) = Inl (Error (duplicatedArgMessage @ k))"
  using assms(1,2,3,5)
proof (induction pre arbitrary: ns names)
  case Nil
  then have "k \<in> set names" by simp
  with assms(4) show ?case by (simp add: validateStep_def hasOwn_def)
next
  case (Cons p pre)
  from Cons.prems(1) obtain n ns' where ns: "ns = n # ns'"
    and p: "validateArg p = Inr (JStr n)"
    and r: "map validateArg pre = map (\<lambda>n. Inr (JStr n)) ns'"
    by (cases ns) auto
  from Cons.prems(2,3) ns have fresh: "n \<notin> set names" and d: "distinct ns'" and nn: "n \<notin> set ns'"
    by auto
  from p fresh have s: "validateStep names p = Inr (assignName names n)"
    by (simp add: validateStep_def hasOwn_def)
  have sub: "set (assignName names n) \<subseteq> insert n (set names)"
    by (auto simp: assignName_def)
  with Cons.prems(3) ns nn have dj: "set ns' \<inter> set (assignName names n) = {}" by auto
  from Cons.prems(4) ns assms(6) have "k \<in> set ns' \<union> set (assignName names n)"
    by (auto simp: assignName_def)
  from Cons.IH [OF r d dj this] s show ?case by simp
qed

text \<open>
  C3. A signature whose arguments declare one name twice must fail construction with the
  duplicate-name error. For the name \<open>__proto__\<close> it does not: the assignment
  \<open>names[name] = name\<close> creates no own property under that key, \<open>hasOwn\<close> stays
  false, and \<open>f(__proto__, __proto__)\<close> is accepted, with two mandatory parameters.
\<close>

theorem createMatcher_duplicate_proto_accepted:
  "createMatcher examplePackages (Program [ExpressionStatement sig_f_proto_proto]) None =
     Inr \<lparr> visitorKeys = exampleKeys, signatureAst = sig_f_proto_proto,
           signatureCalleeDepth = 0, numMaxArgs = JNum 2, numMinArgs = 2 \<rparr>"
  by code_simp

text \<open>
  The two guarded cases of \<open>extractExpressionFrom\<close>: when the top-level statement is
  present and is not an expression statement, or is an expression statement whose
  expression is present and is not a call expression, construction fails with the error
  carrying the not-a-call message.
\<close>

lemma createMatcher_not_call_expression:
  assumes "getProp tree ''body'' = Inr body"
    and "getFirst body = Inr statement"
    and "truthy statement"
    and "\<not> strictEq (propOf statement ''type'') syntax_ExpressionStatement \<or>
         (truthy (propOf statement ''expression'') \<and>
          \<not> strictEq (propOf (propOf statement ''expression'') ''type'') syntax_CallExpression)"
  shows "createMatcher pk tree options = Inl (Error notCallExprMessage)"
proof (cases "strictEq (propOf statement ''type'') syntax_ExpressionStatement")
  case False
  with assms(1-3) show ?thesis
    by (simp add: createMatcher_def extractExpressionFrom_def getProp_propOf)
next
  case True
  with assms(4) have e: "truthy (propOf statement ''expression'')"
    and n: "\<not> strictEq (propOf (propOf statement ''expression'') ''type'') syntax_CallExpression"
    by simp_all
  from e n have "validateApiExpression (propOf statement ''expression'') = Inl (Error notCallExprMessage)"
    by (simp add: validateApiExpression_def getProp_propOf)
  with True assms(1-3) show ?thesis
    by (simp add: createMatcher_def extractExpressionFrom_def getProp_propOf)
qed

text \<open>
  C4. A signature tree without a top-level statement must fail construction with the
  not-a-call error, like the two guarded cases. It does not: \<open>extractExpressionFrom\<close>
  reads \<open>tree.body[0].type\<close> without a guard, and on an empty body the read of
  \<open>type\<close> of \<open>undefined\<close> raises a TypeError instead.
\<close>

theorem createMatcher_empty_body_type_error:
  "createMatcher examplePackages (Program []) None = Inl TypeError \<and>
   createMatcher examplePackages (Program []) None \<noteq> Inl (Error notCallExprMessage)"
  by code_simp

text \<open>
  The early exit of \<open>isSameAstDepth\<close> does not change its answer: when the full
  traversal completes, it compares \<open>depth\<close> with the depth \<open>astDepth\<close> computes.
\<close>

lemma astDepthLoop_ge: "astDepthLoop es c = Inr d \<Longrightarrow> c \<le> d"
proof (induction es c rule: astDepthLoop.induct)
  case (3 pathDepth es maxDepth)
  then show ?case by (auto split: if_splits)
qed simp_all

lemma isSameAstDepthLoop_astDepthLoop:
  "astDepthLoop es c = Inr d \<Longrightarrow> c \<le> depth \<Longrightarrow>
   \<exists>r. isSameAstDepthLoop depth es c = Inr r \<and> (depth = r \<longleftrightarrow> depth = d)"
proof (induction es arbitrary: c)
  case Nil
  then show ?case by simp
next
  case (Cons ev es)
  show ?case
  proof (cases ev)
    case (Throw e)
    with Cons.prems show ?thesis by simp
  next
    case (Enter p)
    let ?c' = "if c < p then p else c"
    from Cons.prems Enter have run: "astDepthLoop es ?c' = Inr d" by simp
    show ?thesis
    proof (cases "depth < ?c'")
      case True
      from astDepthLoop_ge [OF run] True have "depth \<noteq> d" by simp
      with True Enter show ?thesis by (simp add: Let_def)
    next
      case False
      then have "?c' \<le> depth" by simp
      from Cons.IH [OF run this] False Enter show ?thesis by (simp add: Let_def)
    qed
  qed
qed

lemma isSameAstDepth_astDepth:
  assumes "astDepth pk ast keys = Inr d"
  shows "isSameAstDepth pk ast depth keys = Inr (depth = d)"
proof -
  from assms have "astDepthLoop (traverse pk keys ast) 0 = Inr d"
    by (simp add: astDepth_def)
  from isSameAstDepthLoop_astDepthLoop [OF this, of depth]
  obtain r where "isSameAstDepthLoop depth (traverse pk keys ast) 0 = Inr r" "depth = r \<longleftrightarrow> depth = d"
    by auto
  then show ?thesis by (simp add: isSameAstDepth_def)
qed

text \<open>
  C5. A candidate call expression whose callee has a structural depth (under the
  matcher's traversal keys) other than the depth computed from the signature's callee
  makes \<open>test\<close> return false, whatever the deep comparison would say; for example the
  signature \<open>a.b()\<close> against the candidate \<open>a.b.c()\<close>.
\<close>

theorem test_depth_differs:
  assumes "isCallExpression node"
    and "astDepth pk (propOf node ''callee'') (visitorKeys m) = Inr d"
    and "d \<noteq> signatureCalleeDepth m"
  shows "test pk m node = Inr False"
proof -
  from assms(1) have t: "truthy node" by (simp add: isCallExpression_def)
  from isSameAstDepth_astDepth [OF assms(2), of "signatureCalleeDepth m"] assms(3)
  have "isSameAstDepth pk (propOf node ''callee'') (signatureCalleeDepth m) (visitorKeys m) = Inr False"
    by auto
  with assms(1) t have "isCalleeMatched pk (signatureAst m) (signatureCalleeDepth m) node (visitorKeys m) = Inr False"
    by (simp add: isCalleeMatched_def getProp_propOf)
  then show ?thesis by (simp add: test_def)
qed

theorem test_depth_differs_witness:
  "createMatcher examplePackages (Program [ExpressionStatement (CallExpression 10 expr_a_b [])]) None = Inr matcher_a_b
   \<and> isCallExpression cand_a_b_c
   \<and> astDepth examplePackages (propOf cand_a_b_c ''callee'') (visitorKeys matcher_a_b) = Inr 2
   \<and> (2::nat) \<noteq> signatureCalleeDepth matcher_a_b
   \<and> test examplePackages matcher_a_b cand_a_b_c = Inr False"
proof -
  have a: "isCallExpression cand_a_b_c" by code_simp
  have b: "astDepth examplePackages (propOf cand_a_b_c ''callee'') (visitorKeys matcher_a_b) = Inr 2" by code_simp
  have c: "(2::nat) \<noteq> signatureCalleeDepth matcher_a_b" by code_simp
  have m: "createMatcher examplePackages (Program [ExpressionStatement (CallExpression 10 expr_a_b [])]) None =
      Inr matcher_a_b" by code_simp
  from test_depth_differs [OF a b c] m a b c show ?thesis by simp
qed

text \<open>
  What a successful construction establishes: the signature is a call expression, its
  callee depth was computed with the matcher's keys, and every argument yields a
  descriptor that is mandatory or optional, the mandatory ones being counted by
  \<open>numMinArgs\<close>.
\<close>

lemma bind_eq_Inr: "bind r f = Inr v \<longleftrightarrow> (\<exists>x. r = Inr x \<and> f x = Inr v)"
  by (cases r) simp_all

lemma validateArg_descriptor:
  assumes "validateArg a = Inr n"
  shows "(identifiers a = Inr True \<and> toArgumentSignature a = Inr (Some (ArgSig n ''mandatory''))) \<or>
         (identifiers a = Inr False \<and> toArgumentSignature a = Inr (Some (ArgSig n ''optional'')))"
  using assms
  by (auto simp: validateArg_def identifiers_def toArgumentSignature_def bind_eq_Inr
      syntax_Identifier_def syntax_ArrayExpression_def split: if_splits)

lemma validateArgs_signatures:
  "validateArgs names args = Inr names' \<Longrightarrow>
   \<exists>ds ids. mapArr toArgumentSignature args = Inr (map Some ds) \<and> list_all declaredKind ds \<and>
     filterArr identifiers args = Inr ids \<and>
     length ids = length (filter (\<lambda>d. kind d = ''mandatory'') ds) \<and> length ds = length args"
proof (induction args arbitrary: names)
  case Nil
  show ?case by (rule exI [of _ "[]"]) simp
next
  case (Cons a args)
  from Cons.prems obtain names1 where s: "validateStep names a = Inr names1"
    and r: "validateArgs names1 args = Inr names'"
    by (auto simp: bind_eq_Inr)
  from s obtain n where "validateArg a = Inr n"
    by (auto simp: validateStep_def bind_eq_Inr)
  from validateArg_descriptor [OF this] have
    "\<exists>k. (k = ''mandatory'' \<or> k = ''optional'') \<and> identifiers a = Inr (k = ''mandatory'') \<and>
       toArgumentSignature a = Inr (Some (ArgSig n k))"
  proof
    assume "identifiers a = Inr True \<and> toArgumentSignature a = Inr (Some (ArgSig n ''mandatory''))"
    then show ?thesis by (intro exI [of _ "''mandatory''"]) simp
  next
    assume "identifiers a = Inr False \<and> toArgumentSignature a = Inr (Some (ArgSig n ''optional''))"
    then show ?thesis by (intro exI [of _ "''optional''"]) simp
  qed
  then obtain k where
    k: "k = ''mandatory'' \<or> k = ''optional''"
    and i: "identifiers a = Inr (k = ''mandatory'')"
    and t: "toArgumentSignature a = Inr (Some (ArgSig n k))"
    by blast
  from Cons.IH [OF r] obtain ds ids where
    ih: "mapArr toArgumentSignature args = Inr (map Some ds)" "list_all declaredKind ds"
      "filterArr identifiers args = Inr ids"
      "length ids = length (filter (\<lambda>d. kind d = ''mandatory'') ds)" "length ds = length args"
    by blast
  from k have dk: "declaredKind (ArgSig n k)"
    by (simp add: declaredKind_def)
  let ?ds = "ArgSig n k # ds" and ?ids = "if k = ''mandatory'' then a # ids else ids"
  from i t ih dk have
    "mapArr toArgumentSignature (a # args) = Inr (map Some ?ds) \<and> list_all declaredKind ?ds \<and>
     filterArr identifiers (a # args) = Inr ?ids \<and>
     length ?ids = length (filter (\<lambda>d. kind d = ''mandatory'') ?ds) \<and>
     length ?ds = length (a # args)"
    by simp
  then show ?case by blast
qed

lemma reduceSignatures_emitInOrder:
  "list_all declaredKind ds \<Longrightarrow>
   reduceSignatures (map Some ds) accum (Some n) = Inr (accum @ emitInOrder ds n)"
proof (induction ds arbitrary: accum n)
  case Nil
  show ?case by simp
next
  case (Cons d ds)
  from Cons.prems have dk: "declaredKind d" and r: "list_all declaredKind ds"
    by simp_all
  from dk have k: "kind d = ''mandatory'' \<or> kind d = ''optional''"
    by (simp add: declaredKind_def)
  from k show ?case
  proof
    assume "kind d = ''mandatory''"
    then show ?thesis by (simp add: Cons.IH [OF r])
  next
    assume "kind d = ''optional''"
    then show ?thesis by (simp add: Cons.IH [OF r])
  qed
qed

lemma validateApiExpression_truthy:
  "validateApiExpression ast = Inr u \<Longrightarrow> isCallExpression ast"
  by (cases ast)
     (auto simp: validateApiExpression_def isCallExpression_def propOf_def bind_eq_Inr
       syntax_CallExpression_def split: if_splits)

lemma createMatcher_Inr:
  assumes "createMatcher pk tree options = Inr m"
  obtains args ds where
    "isCallExpression (signatureAst m)"
    "visitorKeys m = (case options of Some ks \<Rightarrow> ks | None \<Rightarrow> VisitorKeys pk)"
    "astDepth pk (propOf (signatureAst m) ''callee'') (visitorKeys m) = Inr (signatureCalleeDepth m)"
    "arrayElems (propOf (signatureAst m) ''arguments'') = Inr args"
    "getProp (propOf (signatureAst m) ''arguments'') ''length'' = Inr (numMaxArgs m)"
    "mapArr toArgumentSignature args = Inr (map Some ds)"
    "list_all declaredKind ds"
    "length ds = length args"
    "numMinArgs m = length (filter (\<lambda>d. kind d = ''mandatory'') ds)"
proof -
  from assms obtain ast where e: "extractExpressionFrom tree = Inr ast"
    and n: "newMatcher pk ast options = Inr m"
    by (auto simp: createMatcher_def bind_eq_Inr)
  from e obtain u where v: "validateApiExpression ast = Inr u"
    by (auto simp: extractExpressionFrom_def bind_eq_Inr split: if_splits)
  from validateApiExpression_truthy [OF v] have c: "isCallExpression ast" .
  then have t: "truthy ast" by (simp add: isCallExpression_def)
  from v t obtain args names where a: "arrayElems (propOf ast ''arguments'') = Inr args"
    and va: "validateArgs [] args = Inr names"
    by (auto simp: validateApiExpression_def bind_eq_Inr getProp_propOf split: if_splits)
  from validateArgs_signatures [OF va] obtain ds ids where
    s: "mapArr toArgumentSignature args = Inr (map Some ds)" "list_all declaredKind ds"
      "filterArr identifiers args = Inr ids"
      "length ids = length (filter (\<lambda>d. kind d = ''mandatory'') ds)" "length ds = length args"
    by blast
  from n t a s(3) obtain depth len where
    d: "astDepth pk (propOf ast ''callee'') (case options of Some ks \<Rightarrow> ks | None \<Rightarrow> VisitorKeys pk) = Inr depth"
    and l: "getProp (propOf ast ''arguments'') ''length'' = Inr len"
    and m: "m = \<lparr> visitorKeys = (case options of Some ks \<Rightarrow> ks | None \<Rightarrow> VisitorKeys pk),
          signatureAst = ast, signatureCalleeDepth = depth, numMaxArgs = len, numMinArgs = length ids \<rparr>"
    by (auto simp: newMatcher_def Let_def bind_eq_Inr getProp_propOf)
  show thesis
    by (rule that [of args ds]) (use c d l m a s in simp_all)
qed

lemma test_True_matched:
  assumes "test pk m parentNode = Inr True"
  shows "isCallExpression parentNode"
  using assms
  by (auto simp: test_def isCalleeMatched_def bind_eq_Inr split: if_splits)

text \<open>
  \<open>matchArgument\<close> on a parent that matches: the descriptor at the position of the
  node among the parent's arguments, in the list selected from the declared descriptors.
\<close>

lemma matchArgument_created:
  assumes "createMatcher pk tree options = Inr m"
    and "test pk m parentNode = Inr True"
    and "propOf parentNode ''arguments'' = JArr j args"
    and "\<not> isCalleeOfParent currentNode parentNode"
  shows "\<exists>ds. argumentSignatures m = Inr (map Some ds) \<and>
           matchArgument pk m currentNode parentNode =
             Inr (descriptorAt (emitInOrder ds (int (length args) - int (numMinArgs m)))
                    (indexFrom 0 args currentNode))"
proof -
  from createMatcher_Inr [OF assms(1)] obtain sigArgs ds where
    c: "isCallExpression (signatureAst m)"
      "arrayElems (propOf (signatureAst m) ''arguments'') = Inr sigArgs"
      "mapArr toArgumentSignature sigArgs = Inr (map Some ds)"
      "list_all declaredKind ds"
    by blast
  from c(1) have ts: "truthy (signatureAst m)" by (simp add: isCallExpression_def)
  from c ts have s: "argumentSignatures m = Inr (map Some ds)"
    by (simp add: argumentSignatures_def getProp_propOf)
  from test_True_matched [OF assms(2)] have tp: "truthy parentNode"
    by (simp add: isCallExpression_def)
  from assms(2-4) tp s reduceSignatures_emitInOrder [OF c(4)]
  have "matchArgument pk m currentNode parentNode =
      Inr (descriptorAt (emitInOrder ds (int (length args) - int (numMinArgs m)))
             (indexFrom 0 args currentNode))"
    by (simp add: matchArgument_def getProp_propOf indexOf_def)
  with s show ?thesis by blast
qed

lemma indexFrom_not_found:
  "\<forall>x \<in> set xs. \<not> strictEq x v \<Longrightarrow> indexFrom i xs v = -1"
  by (induction xs arbitrary: i) simp_all

text \<open>
  C2. For a matcher built from a valid signature and a parent call that \<open>test\<close>
  accepts, \<open>matchArgument\<close> walks the declared descriptors in order, emits every
  mandatory one and an optional one only while the count of filled optional slots
  (the parent's argument count minus \<open>numMinArgs\<close>) is positive, and returns the
  descriptor at the position of the node among the parent's arguments. For \<open>f(a, [b])\<close>:
  in \<open>f(1)\<close> the argument is \<open>a\<close>, mandatory; in \<open>f(1, 2)\<close> the first argument is
  \<open>a\<close>, mandatory, and the second is \<open>b\<close>, optional.
\<close>

theorem matchArgument_declared_order:
  assumes "createMatcher pk tree options = Inr m"
    and "test pk m parentNode = Inr True"
    and "propOf parentNode ''arguments'' = JArr j args"
    and "\<not> isCalleeOfParent currentNode parentNode"
  shows "\<exists>ds. argumentSignatures m = Inr (map Some ds) \<and>
           matchArgument pk m currentNode parentNode =
             Inr (descriptorAt (emitInOrder ds (int (length args) - int (numMinArgs m)))
                    (indexFrom 0 args currentNode))"
  using assms by (rule matchArgument_created)

theorem matchArgument_declared_order_witness:
  "createMatcher examplePackages (Program [ExpressionStatement sig_f_a_optb]) None = Inr matcher_f_a_optb
   \<and> test examplePackages matcher_f_a_optb cand_f_1 = Inr True
   \<and> test examplePackages matcher_f_a_optb cand_f_1_2 = Inr True
   \<and> propOf cand_f_1 ''arguments'' = JArr 12 [Literal 14 1]
   \<and> propOf cand_f_1_2 ''arguments'' = JArr 22 [Literal 24 1, Literal 25 2]
   \<and> \<not> isCalleeOfParent (Literal 14 1) cand_f_1
   \<and> \<not> isCalleeOfParent (Literal 24 1) cand_f_1_2
   \<and> \<not> isCalleeOfParent (Literal 25 2) cand_f_1_2
   \<and> matchArgument examplePackages matcher_f_a_optb (Literal 14 1) cand_f_1 =
       Inr (Descriptor (ArgSig (JStr ''a'') ''mandatory''))
   \<and> matchArgument examplePackages matcher_f_a_optb (Literal 24 1) cand_f_1_2 =
       Inr (Descriptor (ArgSig (JStr ''a'') ''mandatory''))
   \<and> matchArgument examplePackages matcher_f_a_optb (Literal 25 2) cand_f_1_2 =
       Inr (Descriptor (ArgSig (JStr ''b'') ''optional''))"
proof -
  let ?m = matcher_f_a_optb
  let ?ds = "[ArgSig (JStr ''a'') ''mandatory'', ArgSig (JStr ''b'') ''optional'']"
  have c: "createMatcher examplePackages (Program [ExpressionStatement sig_f_a_optb]) None = Inr ?m"
    by code_simp
  have t1: "test examplePackages ?m cand_f_1 = Inr True" by code_simp
  have t2: "test examplePackages ?m cand_f_1_2 = Inr True" by code_simp
  have a1: "propOf cand_f_1 ''arguments'' = JArr 12 [Literal 14 1]" by code_simp
  have a2: "propOf cand_f_1_2 ''arguments'' = JArr 22 [Literal 24 1, Literal 25 2]" by code_simp
  have n1: "\<not> isCalleeOfParent (Literal 14 1) cand_f_1" by code_simp
  have n2: "\<not> isCalleeOfParent (Literal 24 1) cand_f_1_2" by code_simp
  have n3: "\<not> isCalleeOfParent (Literal 25 2) cand_f_1_2" by code_simp
  have s: "argumentSignatures ?m = Inr (map Some ?ds)" by code_simp
  have e1: "descriptorAt (emitInOrder ?ds (int (length [Literal 14 1]) - int (numMinArgs ?m)))
              (indexFrom 0 [Literal 14 1] (Literal 14 1)) = Descriptor (ArgSig (JStr ''a'') ''mandatory'')"
    by code_simp
  have e2: "descriptorAt (emitInOrder ?ds (int (length [Literal 24 1, Literal 25 2]) - int (numMinArgs ?m)))
              (indexFrom 0 [Literal 24 1, Literal 25 2] (Literal 24 1)) = Descriptor (ArgSig (JStr ''a'') ''mandatory'')"
    by code_simp
  have e3: "descriptorAt (emitInOrder ?ds (int (length [Literal 24 1, Literal 25 2]) - int (numMinArgs ?m)))
              (indexFrom 0 [Literal 24 1, Literal 25 2] (Literal 25 2)) = Descriptor (ArgSig (JStr ''b'') ''optional'')"
    by code_simp
  have inj: "\<And>ds. Inr (map Some ?ds) = (Inr (map Some ds) :: argSig option list result) \<Longrightarrow> ds = ?ds"
    by (auto simp: map_eq_Cons_conv)
  from matchArgument_declared_order [OF c t1 a1 n1] s e1 inj
  have r1: "matchArgument examplePackages ?m (Literal 14 1) cand_f_1 = Inr (Descriptor (ArgSig (JStr ''a'') ''mandatory''))"
    by auto
  from matchArgument_declared_order [OF c t2 a2 n2] s e2 inj
  have r2: "matchArgument examplePackages ?m (Literal 24 1) cand_f_1_2 = Inr (Descriptor (ArgSig (JStr ''a'') ''mandatory''))"
    by auto
  from matchArgument_declared_order [OF c t2 a2 n3] s e3 inj
  have r3: "matchArgument examplePackages ?m (Literal 25 2) cand_f_1_2 = Inr (Descriptor (ArgSig (JStr ''b'') ''optional''))"
    by auto
  from c t1 t2 a1 a2 n1 n2 n3 r1 r2 r3 show ?thesis by blast
qed

text \<open>
  C8. For a matcher built from a valid signature and a parent call that \<open>test\<close>
  accepts, a node that is identical to none of the parent's arguments gets no descriptor
  and raises nothing: the index \<open>-1\<close> reads \<open>undefined\<close> (or the node is the callee
  and the answer is \<open>null\<close>).
\<close>

theorem matchArgument_not_an_argument:
  assumes "createMatcher pk tree options = Inr m"
    and "test pk m parentNode = Inr True"
    and "propOf parentNode ''arguments'' = JArr j args"
    and "\<forall>x \<in> set args. \<not> strictEq x currentNode"
  shows "matchArgument pk m currentNode parentNode = Inr ReturnsUndefined \<or>
         matchArgument pk m currentNode parentNode = Inr ReturnsNull"
proof (cases "isCalleeOfParent currentNode parentNode")
  case True
  then show ?thesis by (simp add: matchArgument_def)
next
  case False
  from matchArgument_created [OF assms(1-3) False] indexFrom_not_found [OF assms(4)]
  show ?thesis by (auto simp: descriptorAt_def)
qed

theorem matchArgument_not_an_argument_witness:
  "createMatcher examplePackages (Program [ExpressionStatement sig_f_a_optb]) None = Inr matcher_f_a_optb
   \<and> test examplePackages matcher_f_a_optb cand_f_1_2 = Inr True
   \<and> propOf cand_f_1_2 ''arguments'' = JArr 22 [Literal 24 1, Literal 25 2]
   \<and> \<not> strictEq (Literal 24 1) (Literal 99 2)
   \<and> \<not> strictEq (Literal 25 2) (Literal 99 2)
   \<and> matchArgument examplePackages matcher_f_a_optb (Literal 99 2) cand_f_1_2 = Inr ReturnsUndefined"
proof -
  have c: "createMatcher examplePackages (Program [ExpressionStatement sig_f_a_optb]) None = Inr matcher_f_a_optb"
    by code_simp
  have t: "test examplePackages matcher_f_a_optb cand_f_1_2 = Inr True" by code_simp
  have a: "propOf cand_f_1_2 ''arguments'' = JArr 22 [Literal 24 1, Literal 25 2]" by code_simp
  have n: "\<forall>x \<in> set [Literal 24 1, Literal 25 2]. \<not> strictEq x (Literal 99 2)"
    by (simp add: Literal_def)
  have nn: "matchArgument examplePackages matcher_f_a_optb (Literal 99 2) cand_f_1_2 \<noteq> Inr ReturnsNull"
    by code_simp
  from n have n1: "\<not> strictEq (Literal 24 1) (Literal 99 2)"
    and n2: "\<not> strictEq (Literal 25 2) (Literal 99 2)"
    by simp_all
  from matchArgument_not_an_argument [OF c t a n] nn c t a n1 n2 show ?thesis by simp
qed





































text \<open>
  Purifying a tree whose metadata fields hold position data does not change what the
  traversal does, under any key table: a metadata field contributes no child either
  way, and every other field is kept.
\<close>

lemma truthy_espurify: "truthy (purify M v) = truthy v"
  by (cases v) simp_all

lemma espurify_JStr: "purify M v = JStr t \<longleftrightarrow> v = JStr t"
  by (cases v) auto

lemma map_of_espurify:
  "map_of (map (\<lambda>(k, v). (k, purify M v)) (filter (\<lambda>(k, v). k \<notin> set M) fs)) key =
     (if key \<in> set M then None else map_option (purify M) (map_of fs key))"
  by (induction fs) auto

lemma propOf_espurify:
  "key \<notin> set M \<Longrightarrow> propOf (purify M a) key = purify M (propOf a key)"
  by (cases a) (auto simp: propOf_def map_of_espurify split: option.splits)

lemma keyElements_metadata_purified:
  assumes "key \<in> set M"
  shows "keyElements nodeType d key (propOf (purify M a) key) = []"
  using assms by (cases a) (simp_all add: propOf_def map_of_espurify)

lemma isNode_espurify: "''type'' \<notin> set M \<Longrightarrow> isNode (purify M v) = isNode v"
  by (cases v) (auto simp: map_of_espurify espurify_JStr split: option.splits jsval.splits)

lemma toPropertyKey_espurify: "toPropertyKey (purify M t) = toPropertyKey t"
  by (cases t) simp_all

lemma candidatesOf_espurify:
  assumes "''type'' \<notin> set M"
  shows "candidatesOf keys (purify M a) wrap = candidatesOf keys a wrap"
proof -
  from assms have "propOf (purify M a) ''type'' = purify M (propOf a ''type'')"
    by (rule propOf_espurify)
  then have "nodeTypeKey (purify M a) wrap = nodeTypeKey a wrap"
    by (simp add: nodeTypeKey_def truthy_espurify toPropertyKey_espurify)
  then show ?thesis by (simp add: candidatesOf_def)
qed

lemma keyElements_espurify:
  assumes "''type'' \<notin> set M"
  shows "keyElements nodeType d key (purify M v) = map (purified M) (keyElements nodeType d key v)"
proof (cases v)
  case (JArr i xs)
  then show ?thesis
    by (simp add: filter_map o_def truthy_espurify isNode_espurify [OF assms] purified_def)
next
  case (JObj i fs)
  have "isNode (purify M (JObj i fs)) = isNode (JObj i fs)" by (rule isNode_espurify [OF assms])
  with JObj show ?thesis by (simp add: purified_def)
qed (simp_all add: purified_def)

lemma keyElements_positionData:
  assumes "key \<in> set M" and "''properties'' \<notin> set M" and "positionData v"
  shows "keyElements nodeType d key v = []"
proof -
  from assms(1,2) have "\<not> isProperty nodeType key"
    by (auto simp: isProperty_def)
  with assms(3) show ?thesis
    by (cases v) (auto simp: list_all_iff filter_empty_conv)
qed

lemma positionsOnly_metadata:
  assumes "positionsOnly M a" and "key \<in> set M"
  shows "positionData (propOf a key)"
proof (cases a)
  case (JObj i fs)
  show ?thesis
  proof (cases "map_of fs key")
    case None
    with JObj show ?thesis by (simp add: propOf_def)
  next
    case (Some v)
    then have "(key, v) \<in> set fs" by (rule map_of_SomeD)
    with assms JObj have "positionData v" by (auto simp: list_all_iff)
    with JObj Some show ?thesis by (simp add: propOf_def)
  qed
qed (simp_all add: propOf_def)

lemma positionsOnly_propOf:
  assumes "positionsOnly M a" and "key \<notin> set M"
  shows "positionsOnly M (propOf a key)"
proof (cases a)
  case (JObj i fs)
  show ?thesis
  proof (cases "map_of fs key")
    case None
    with JObj show ?thesis by (simp add: propOf_def)
  next
    case (Some v)
    then have "(key, v) \<in> set fs" by (rule map_of_SomeD)
    with assms JObj have "positionsOnly M v" by (auto simp: list_all_iff)
    with JObj Some show ?thesis by (simp add: propOf_def)
  qed
qed (simp_all add: propOf_def)

lemma positionsOnly_keyElements:
  "positionsOnly M v \<Longrightarrow> x \<in> set (keyElements nodeType d key v) \<Longrightarrow> positionsOnly M (fst x)"
  by (cases v) (auto simp: list_all_iff split: if_splits)

lemma keyElements_propOf_espurify:
  assumes "keepsStructure M" and "positionsOnly M a"
  shows "keyElements nodeType d key (propOf (purify M a) key) =
         map (purified M) (keyElements nodeType d key (propOf a key))"
proof (cases "key \<in> set M")
  case True
  from assms(1) have p: "''properties'' \<notin> set M" by (simp add: keepsStructure_def)
  from keyElements_positionData [OF True p positionsOnly_metadata [OF assms(2) True]]
  have "keyElements nodeType d key (propOf a key) = []" .
  with True show ?thesis by (simp add: keyElements_metadata_purified)
next
  case False
  from assms(1) have t: "''type'' \<notin> set M" by (simp add: keepsStructure_def)
  from False show ?thesis by (simp add: propOf_espurify keyElements_espurify [OF t])
qed

lemma childElements_espurify:
  assumes "keepsStructure M" and "positionsOnly M a"
  shows "childElements nodeType candidates (purify M a) d =
         map (purified M) (childElements nodeType candidates a d)"
  by (simp add: childElements_def map_concat o_def keyElements_propOf_espurify [OF assms])

lemma positionsOnly_childElements:
  assumes "keepsStructure M" and "positionsOnly M a"
    and "x \<in> set (childElements nodeType candidates a d)"
  shows "positionsOnly M (fst x)"
proof -
  from assms(1) have p: "''properties'' \<notin> set M" by (simp add: keepsStructure_def)
  from assms(3) obtain key where x: "x \<in> set (keyElements nodeType d key (propOf a key))"
    by (auto simp: childElements_def)
  show ?thesis
  proof (cases "key \<in> set M")
    case True
    from keyElements_positionData [OF True p positionsOnly_metadata [OF assms(2) True]] x
    show ?thesis by simp
  next
    case False
    from positionsOnly_keyElements [OF positionsOnly_propOf [OF assms(2) False] x]
    show ?thesis .
  qed
qed

lemma events_espurify:
  "keepsStructure M \<Longrightarrow> positionsOnly M (fst e) \<Longrightarrow> events keys (purified M e) = events keys e"
proof (induction keys e rule: events.induct)
  case (1 keys node d wrap)
  from "1.prems" have ks: "keepsStructure M" and po: "positionsOnly M node" by simp_all
  from ks have ty: "''type'' \<notin> set M" by (simp add: keepsStructure_def)
  have pe: "purified M (node, d, wrap) = (purify M node, d, wrap)" by (simp add: purified_def)
  show ?case
  proof (cases "truthy node")
    case False
    then show ?thesis by (simp add: pe truthy_espurify)
  next
    case True
    then have tp: "truthy (purify M node)" by (simp add: truthy_espurify)
    show ?thesis
    proof (cases "candidatesOf keys node wrap")
      case (Inl err)
      then have c2: "candidatesOf keys (purify M node) wrap = Inl err"
        by (simp add: candidatesOf_espurify [OF ty])
      from True Inl have l: "events keys (node, d, wrap) = [Enter d, Throw err]" by simp
      from tp c2 have r: "events keys (purify M node, d, wrap) = [Enter d, Throw err]" by simp
      from l r pe show ?thesis by simp
    next
      case (Inr p)
      obtain nodeType candidates where p: "p = (nodeType, candidates)" by (cases p)
      from Inr p have c1: "candidatesOf keys node wrap = Inr (nodeType, candidates)" by simp
      then have c2: "candidatesOf keys (purify M node) wrap = Inr (nodeType, candidates)"
        by (simp add: candidatesOf_espurify [OF ty])
      have m: "map (events keys) (map (purified M) (childElements nodeType candidates node d)) =
            map (events keys) (childElements nodeType candidates node d)"
        unfolding map_map o_def
      proof (rule map_cong [OF refl])
        fix x assume x: "x \<in> set (childElements nodeType candidates node d)"
        have nn: "\<not> \<not> truthy node" using True by simp
        from "1.IH" [OF nn c1 refl x ks positionsOnly_childElements [OF ks po x]]
        show "events keys (purified M x) = events keys x" .
      qed
      from True c1 have l: "events keys (node, d, wrap) =
          Enter d # concat (map (events keys) (childElements nodeType candidates node d))" by simp
      from tp c2 have r: "events keys (purify M node, d, wrap) =
          Enter d # concat (map (events keys) (childElements nodeType candidates (purify M node) d))"
        by simp
      have "events keys (purified M (node, d, wrap)) = events keys (purify M node, d, wrap)"
        by (simp only: pe)
      also have "\<dots> =
          Enter d # concat (map (events keys) (childElements nodeType candidates (purify M node) d))"
        by (rule r)
      also have "\<dots> =
          Enter d # concat (map (events keys) (map (purified M) (childElements nodeType candidates node d)))"
        by (simp only: childElements_espurify [OF ks po])
      also have "\<dots> =
          Enter d # concat (map (events keys) (childElements nodeType candidates node d))"
        by (simp only: m)
      also have "\<dots> = events keys (node, d, wrap)"
        by (rule l [symmetric])
      finally show ?thesis .
    qed
  qed
qed

lemma traverse_purify:
  assumes "keepsStructure M" and "positionsOnly M a"
  shows "traverse pk keys (purify M a) = traverse pk keys a"
  using events_espurify [OF assms(1), of "(a, 0, False)" "keys @ VisitorKeys pk"] assms(2)
  by (simp add: traverse_def purified_def)

lemma traverse_espurify:
  assumes "keepsStructure M" and "positionsOnly M a" and "positionsOnly M b"
    and "purify M a = purify M b"
  shows "traverse pk keys a = traverse pk keys b"
  using traverse_purify [OF assms(1,2), of pk keys] traverse_purify [OF assms(1,3), of pk keys]
    assms(4) by simp









end
